theory Spec2Isabelle
  imports Main
begin

section \<open>The documentation generator \<open>scripts/generate_docs.js\<close>\<close>

text \<open>
  The script reads the JSDoc records of every source file, turns each record into a
  documentation entry, groups the entries by category, appends the static documents of
  the configuration and writes the grouped object as one JSON file.

  Conventions of the embedding.
  \<^item> A JavaScript string is a \<open>string\<close>; \<open>'.'\<close> is one character in both.
  \<^item> A value that may be \<open>null\<close> or \<open>undefined\<close> is an \<open>option\<close>.
  \<^item> A thrown exception or a rejected promise is \<open>Inl\<close> of an \<open>error\<close>.
  \<^item> A plain object used as a dictionary is the list of its own properties in insertion
    order, which is the order in which \<open>JSON.stringify\<close> writes them. Property names
    are ordinary names, as categories (titles such as \<open>Day Helpers\<close>) and parameter
    names (identifiers) are; the names that JavaScript treats apart, array indices and
    the names every object inherits, are not modelled.
  \<^item> What the script imports and this file does not hold (the file lister, the parsing
    engine, \<open>JSON\<close>, the file system, lodash's \<open>snakeCase\<close>, the configuration
    \<open>../docs\<close>) is a parameter of the model.
\<close>

subsection \<open>Errors\<close>

datatype error =
    TypeError string  \<comment> \<open>a property read or a method call on \<open>null\<close> or \<open>undefined\<close>\<close>
  | ReadError string  \<comment> \<open>\<open>fsp.readFile\<close> rejected for this path\<close>
  | WriteError string \<comment> \<open>\<open>fsp.writeFile\<close> rejected for this path\<close>

subsection \<open>Parameters\<close>

text \<open>
  A parameter node as the parsing engine emits it and as \<open>paramsToTree\<close> rewrites it:
  \<open>{name, optional, isProperty, props, ...}\<close>. An absent or falsy \<open>isProperty\<close> or
  \<open>optional\<close> is \<open>False\<close>, an absent \<open>props\<close> is \<open>None\<close>, and \<open>meta\<close> stands for
  every other field of the node, which the script never reads or writes.
\<close>

datatype 'm param = Param
  (name: string)
  (optional: bool)
  (isProperty: bool)
  (props: "'m param list option")
  (meta: 'm)

subsection \<open>\<open>paramsToTree\<close>\<close>

text \<open>\<open>name.indexOf('.') >= 0\<close>\<close>

definition hasDot :: "string \<Rightarrow> bool" where
  "hasDot nm = (CHR ''.'' \<in> set nm)"

text \<open>\<open>name.substring(0, indexOfDot)\<close> for the first dot of \<open>name\<close>\<close>

definition beforeDot :: "string \<Rightarrow> string" where
  "beforeDot nm = takeWhile (\<lambda>c. c \<noteq> CHR ''.'') nm"

text \<open>\<open>name.substring(indexOfDot + 1)\<close> for the first dot of \<open>name\<close>\<close>

definition afterDot :: "string \<Rightarrow> string" where
  "afterDot nm = tl (dropWhile (\<lambda>c. c \<noteq> CHR ''.'') nm)"

text \<open>
  \<open>params.reduce((result, { name }, index) => { result[name] = index; return result }, {})\<close>:
  a later parameter of the same name overwrites the index of an earlier one. The
  accumulator is only ever read by name, so it is a map.
\<close>

fun paramIndicesFrom :: "nat \<Rightarrow> 'm param list \<Rightarrow> (string \<rightharpoonup> nat) \<Rightarrow> (string \<rightharpoonup> nat)" where
  "paramIndicesFrom index [] result = result"
| "paramIndicesFrom index (p # ps) result =
     paramIndicesFrom (Suc index) ps (result(name p \<mapsto> index))"

definition paramIndices :: "'m param list \<Rightarrow> (string \<rightharpoonup> nat)" where
  "paramIndices params = paramIndicesFrom 0 params Map.empty"

text \<open>The two assignments \<open>param.name = ...\<close> and \<open>param.isProperty = true\<close>.\<close>

definition asProperty :: "'m param \<Rightarrow> 'm param" where
  "asProperty p = Param (afterDot (name p)) (optional p) True (props p) (meta p)"

text \<open>
  \<open>if (!parent.props) { parent.props = [param] } else { parent.props.push(param) }\<close>;
  an array is truthy even when it is empty.
\<close>

definition addProp :: "'m param \<Rightarrow> 'm param \<Rightarrow> 'm param" where
  "addProp child parent =
     Param (name parent) (optional parent) (isProperty parent)
       (Some (case props parent of None \<Rightarrow> [child] | Some ps \<Rightarrow> ps @ [child]))
       (meta parent)"

text \<open>
  The callback of \<open>params.map\<close> at one index. It mutates the objects of the cloned array
  in place, so the model passes the array along. \<open>paramIndices[prefix]\<close> is \<open>undefined\<close>
  for a prefix that names no parameter; then \<open>params[undefined]\<close> is \<open>undefined\<close> and
  reading \<open>parent.props\<close> throws. The parent object is looked at after the two
  assignments to the visited parameter, as in the source.
\<close>

definition visit :: "(string \<rightharpoonup> nat) \<Rightarrow> nat \<Rightarrow> 'm param list \<Rightarrow> error + 'm param list" where
  "visit indices index params =
     (let param = params ! index in
      if hasDot (name param) \<and> \<not> isProperty param then
        (case indices (beforeDot (name param)) of
           None \<Rightarrow> Inl (TypeError ''props of undefined'')
         | Some parentIndex \<Rightarrow>
             if parentIndex < length params then
               (let child = asProperty param;
                    params1 = params[index := child];
                    parent = params1 ! parentIndex
                in Inr (params1[parentIndex := addProp child parent]))
             else Inl (TypeError ''props of undefined''))
      else Inr params)"

text \<open>\<open>params.map\<close> calls the callback at the indices \<open>0, 1, ...\<close> in order and stops at a throw.\<close>

fun visitAll :: "(string \<rightharpoonup> nat) \<Rightarrow> nat list \<Rightarrow> 'm param list \<Rightarrow> error + 'm param list" where
  "visitAll indices [] params = Inr params"
| "visitAll indices (index # rest) params =
     (case visit indices index params of
        Inl e \<Rightarrow> Inl e
      | Inr params' \<Rightarrow> visitAll indices rest params')"

text \<open>
  \<open>cloneDeep\<close> gives fresh objects with the same field values, which in a model of values
  is the identity. The array that \<open>map\<close> returns holds the very objects of \<open>params\<close>, so
  it is \<open>params\<close> as the last callback leaves it.
\<close>

definition paramsToTree :: "'m param list option \<Rightarrow> error + 'm param list option" where
  "paramsToTree dirtyParams =
     (case dirtyParams of
        None \<Rightarrow> Inr None
      | Some params \<Rightarrow>
          (case visitAll (paramIndices params) [0..<length params] params of
             Inl e \<Rightarrow> Inl e
           | Inr mapped \<Rightarrow> Inr (Some (filter (\<lambda>param. \<not> isProperty param) mapped))))"

subsection \<open>Objects as dictionaries\<close>

text \<open>
  The own properties of a plain object, in insertion order. \<open>getProp\<close> is the read
  \<open>obj[key]\<close>, with \<open>None\<close> for \<open>undefined\<close>; \<open>setProp\<close> is the assignment
  \<open>obj[key] = value\<close>, which keeps the place of a name the object already has and
  puts a new name last.
\<close>

type_synonym 'v object = "(string \<times> 'v) list"

primrec getProp :: "'v object \<Rightarrow> string \<Rightarrow> 'v option" where
  "getProp [] key = None"
| "getProp (p # ps) key = (if fst p = key then Some (snd p) else getProp ps key)"

primrec setProp :: "string \<Rightarrow> 'v \<Rightarrow> 'v object \<Rightarrow> 'v object" where
  "setProp key v [] = [(key, v)]"
| "setProp key v (p # ps) = (if fst p = key then (key, v) # ps else p # setProp key v ps)"

subsection \<open>Records of the pipeline\<close>

text \<open>
  A record of the parsing engine: \<open>{name, category, summary, params, ...}\<close>. The field
  names carry the prefix \<open>doc_\<close> because \<open>name\<close> and \<open>category\<close> also name fields of
  other objects.
\<close>

record ('m, 'r) rawDoc =
  doc_name :: string
  doc_category :: string
  doc_summary :: string
  doc_params :: "'m param list option"
  doc_meta :: 'r

text \<open>One entry \<open>{title, code}\<close> of the usage object, and the usage object.\<close>

record snippet =
  snippet_title :: string
  code :: string

record usageObj =
  commonjs :: snippet
  umd :: snippet
  es2015 :: snippet

text \<open>
  The object literal that the callback of \<open>jsDocs.map\<close> returns. \<open>entryType\<close> is its
  field \<open>type\<close> and \<open>syntaxString\<close> its field \<open>syntax\<close>.
\<close>

record ('m, 'r) docEntry =
  entryType :: string
  urlId :: string
  category :: string
  title :: string
  description :: string
  content :: "('m, 'r) rawDoc"
  args :: "'m param list option"
  usage :: usageObj
  usageTabs :: "string list"
  syntaxString :: string

text \<open>
  A static document of the configuration: \<open>{category, path, ...}\<close>, with \<open>content\<close>
  once \<open>getListOfStaticDocs\<close> has read the file. \<open>sd_content\<close> is \<open>None\<close> while the
  object has no property \<open>content\<close>.
\<close>

record 's staticDoc =
  sd_category :: string
  sd_path :: string
  sd_content :: "string option"
  sd_meta :: 's

text \<open>The configuration module \<open>../docs\<close>: \<open>docsConfig.groups\<close> and \<open>docsConfig.staticDocs\<close>.\<close>

record 's config =
  groups :: "string list"
  staticDocs :: "'s staticDoc list"

text \<open>
  The lists of the grouped object hold both kinds of object; the script reads only
  their \<open>category\<close>.
\<close>

datatype ('m, 'r, 's) doc =
    JsDoc "('m, 'r) docEntry"
  | StaticDoc "'s staticDoc"

fun categoryOf :: "('m, 'r, 's) doc \<Rightarrow> string" where
  "categoryOf (JsDoc entry) = category entry"
| "categoryOf (StaticDoc staticDoc) = sd_category staticDoc"

subsection \<open>\<open>generateSyntaxString\<close> and \<open>generateUsage\<close>\<close>

text \<open>
  \<open>Array.prototype.join\<close>: the empty string for an empty array, otherwise the first
  element followed by separator and element for every later one.
\<close>

definition join :: "string \<Rightarrow> string list \<Rightarrow> string" where
  "join sep xs = (case xs of [] \<Rightarrow> [] | x # rest \<Rightarrow> fold (\<lambda>y r. r @ sep @ y) rest x)"

text \<open>\<open>args.map\<close> on \<open>null\<close> throws.\<close>

definition generateSyntaxString :: "string \<Rightarrow> 'm param list option \<Rightarrow> error + string" where
  "generateSyntaxString nm args' =
     (case args' of
        None \<Rightarrow> Inl (TypeError ''map of null'')
      | Some as \<Rightarrow>
          (let argsString =
                 join '', '' (map (\<lambda>arg. if optional arg then ''['' @ name arg @ '']'' else name arg) as)
           in Inr (nm @ ''('' @ argsString @ '')'')))"

text \<open>\<open>snakeCase\<close> is lodash's and a parameter here.\<close>

definition generateUsage :: "(string \<Rightarrow> string) \<Rightarrow> string \<Rightarrow> usageObj" where
  "generateUsage snakeCase nm =
     (let fileName = snakeCase nm in
      \<lparr> commonjs = \<lparr> snippet_title = ''CommonJS'',
                     code = ''var '' @ nm @ '' = require('' @ [CHR 0x27] @ ''date-fns/'' @ fileName @ [CHR 0x27] @ '')'' \<rparr>,
        umd = \<lparr> snippet_title = ''UMD'',
                code = ''var '' @ nm @ '' = dateFns.'' @ nm \<rparr>,
        es2015 = \<lparr> snippet_title = ''ES 2015'',
                   code = ''import '' @ nm @ '' from '' @ [CHR 0x27] @ ''date-fns/'' @ fileName @ [CHR 0x27] \<rparr> \<rparr>)"

subsection \<open>The callback of \<open>jsDocs.map\<close> in \<open>generateDocsFromSource\<close>\<close>

text \<open>
  \<open>paramsToTree\<close> runs first; the fields of the literal are evaluated in the order they
  are written, so \<open>generateUsage\<close> runs before \<open>generateSyntaxString\<close>. The entry holds
  the record itself as \<open>content\<close>, with the parameters as the engine gave them, since
  \<open>paramsToTree\<close> works on a clone.
\<close>

definition assembleDoc :: "(string \<Rightarrow> string) \<Rightarrow> ('m, 'r) rawDoc \<Rightarrow> error + ('m, 'r, 's) doc" where
  "assembleDoc snakeCase d =
     (case paramsToTree (doc_params d) of
        Inl e \<Rightarrow> Inl e
      | Inr args' \<Rightarrow>
          (let usage' = generateUsage snakeCase (doc_name d) in
           case generateSyntaxString (doc_name d) args' of
             Inl e \<Rightarrow> Inl e
           | Inr syntax' \<Rightarrow>
               Inr (JsDoc \<lparr> entryType = ''jsdoc'',
                            urlId = doc_name d,
                            category = doc_category d,
                            title = doc_name d,
                            description = doc_summary d,
                            content = d,
                            args = args',
                            usage = usage',
                            usageTabs = [''commonjs'', ''umd'', ''es2015''],
                            syntaxString = syntax' \<rparr>)))"

text \<open>\<open>jsDocs.map\<close> with a callback that may throw: the first throw ends the map.\<close>

fun assembleDocs :: "(string \<Rightarrow> string) \<Rightarrow> ('m, 'r) rawDoc list \<Rightarrow> error + ('m, 'r, 's) doc list" where
  "assembleDocs snakeCase [] = Inr []"
| "assembleDocs snakeCase (d # ds) =
     (case assembleDoc snakeCase d of
        Inl e \<Rightarrow> Inl e
      | Inr entry \<Rightarrow>
          (case assembleDocs snakeCase ds of
             Inl e \<Rightarrow> Inl e
           | Inr entries \<Rightarrow> Inr (entry # entries)))"

subsection \<open>\<open>buildGroupsTemplate\<close>, \<open>groupDocs\<close> and \<open>generatedDocsObj\<close>\<close>

definition buildGroupsTemplate :: "string list \<Rightarrow> 'd list object" where
  "buildGroupsTemplate groups' = fold (\<lambda>group acc. setProp group [] acc) groups' []"

text \<open>
  \<open>(acc[doc.category] = acc[doc.category] || []).push(doc)\<close>: the list of the category,
  or a new empty list when the object has no such name, is stored under the name and
  the entry is pushed onto it.
\<close>

definition groupDocs :: "('m, 'r, 's) doc list \<Rightarrow> string list \<Rightarrow> ('m, 'r, 's) doc list object" where
  "groupDocs docs groups' =
     fold (\<lambda>doc acc.
             setProp (categoryOf doc)
               ((case getProp acc (categoryOf doc) of None \<Rightarrow> [] | Some list \<Rightarrow> list) @ [doc]) acc)
       docs (buildGroupsTemplate groups')"

definition generatedDocsObj :: "'s config \<Rightarrow> ('m, 'r, 's) doc list \<Rightarrow> ('m, 'r, 's) doc list object" where
  "generatedDocsObj config docs = groupDocs docs (groups config)"

subsection \<open>\<open>getListOfStaticDocs\<close> and \<open>injectStaticDocsToDocsObj\<close>\<close>

text \<open>
  \<open>readFile\<close> is the file system: the text of the file at a path, or \<open>None\<close> when the
  read is rejected. \<open>Object.assign({ content }, staticDoc)\<close> lets a \<open>content\<close> of the
  descriptor win over the text read. \<open>Promise.all\<close> keeps the order of the descriptors
  and is rejected when a read is.
\<close>

fun getListOfStaticDocs :: "(string \<Rightarrow> string option) \<Rightarrow> 's staticDoc list \<Rightarrow> error + 's staticDoc list" where
  "getListOfStaticDocs readFile [] = Inr []"
| "getListOfStaticDocs readFile (staticDoc # rest) =
     (case readFile (sd_path staticDoc) of
        None \<Rightarrow> Inl (ReadError (sd_path staticDoc))
      | Some content' \<Rightarrow>
          (case getListOfStaticDocs readFile rest of
             Inl e \<Rightarrow> Inl e
           | Inr loaded \<Rightarrow>
               Inr (staticDoc\<lparr>sd_content :=
                      (case sd_content staticDoc of None \<Rightarrow> Some content' | Some own \<Rightarrow> Some own)\<rparr>
                    # loaded)))"

text \<open>
  \<open>staticDocs.forEach(staticDoc => { docsFileObj[staticDoc.category].push(staticDoc) })\<close>:
  the read is unguarded, so a category that the object does not have throws.
\<close>

fun pushStaticDocs :: "'s staticDoc list \<Rightarrow> ('m, 'r, 's) doc list object \<Rightarrow> error + ('m, 'r, 's) doc list object" where
  "pushStaticDocs [] docsFileObj = Inr docsFileObj"
| "pushStaticDocs (staticDoc # rest) docsFileObj =
     (case getProp docsFileObj (sd_category staticDoc) of
        None \<Rightarrow> Inl (TypeError ''push of undefined'')
      | Some list \<Rightarrow>
          pushStaticDocs rest
            (setProp (sd_category staticDoc) (list @ [StaticDoc staticDoc]) docsFileObj))"

definition injectStaticDocsToDocsObj ::
  "'s config \<Rightarrow> (string \<Rightarrow> string option) \<Rightarrow> ('m, 'r, 's) doc list object
     \<Rightarrow> error + ('m, 'r, 's) doc list object" where
  "injectStaticDocsToDocsObj config readFile docsFileObj =
     (case getListOfStaticDocs readFile (staticDocs config) of
        Inl e \<Rightarrow> Inl e
      | Inr loaded \<Rightarrow> pushStaticDocs loaded docsFileObj)"

subsection \<open>The process: streams, promises, exit\<close>

text \<open>
  What the process leaves behind: the lines written to the error stream, the status
  passed to \<open>process.exit\<close> (\<open>None\<close> while the process has not called it), and the
  files written, as pairs of path and text.
\<close>

record world =
  stderr :: "string list"
  exitCode :: "nat option"
  written :: "(string \<times> string) list"

definition consoleError :: "string \<Rightarrow> world \<Rightarrow> world" where
  "consoleError text' w = w\<lparr>stderr := stderr w @ [text']\<rparr>"

definition processExit :: "nat \<Rightarrow> world \<Rightarrow> world" where
  "processExit status w = w\<lparr>exitCode := Some status\<rparr>"

text \<open>
  A promise is fulfilled, rejected, or never settled: the last is a promise whose
  stream never ends and a promise of a process that has exited, whose \<open>then\<close> callbacks
  never run.
\<close>

datatype 'a promise = Resolved 'a | Rejected error | Unsettled

text \<open>The events of the stream that the parsing engine returns for a file.\<close>

datatype event = StreamData string | StreamError string | StreamEnd

record sourceFile =
  fullPath :: string

text \<open>
  What the script imports, as parameters: \<open>listFiles()\<close>, \<open>parseJSDoc({ src })\<close> as the
  events of its stream in order, \<open>JSON.parse\<close> (\<open>None\<close> when it throws), lodash's
  \<open>snakeCase\<close>, the configuration, \<open>fsp.readFile\<close>, \<open>process.cwd()\<close>, \<open>path.join\<close>,
  \<open>JSON.stringify\<close>, whether \<open>fsp.writeFile\<close> is fulfilled for a path and a text, and
  \<open>err.stack\<close>.
\<close>

record ('m, 'r, 's) env =
  listFiles :: "sourceFile list"
  parseJSDoc :: "string \<Rightarrow> event list"
  JSON_parse :: "string \<Rightarrow> ('m, 'r) rawDoc list option"
  snakeCase :: "string \<Rightarrow> string"
  docsConfig :: "'s config"
  readFile :: "string \<Rightarrow> string option"
  cwd :: string
  path_join :: "string list \<Rightarrow> string"
  JSON_stringify :: "('m, 'r, 's) doc list object \<Rightarrow> string"
  writeFile :: "string \<Rightarrow> string \<Rightarrow> bool"
  stack :: "error \<Rightarrow> string"

text \<open>
  The three listeners of \<open>generateDocFromSource\<close> over the events of one stream, with
  \<open>data\<close> the text gathered so far. The \<open>error\<close> listener prints and exits at once.
  The \<open>end\<close> listener resolves with the parsed text; if \<open>JSON.parse\<close> throws there, the
  exception leaves a listener and is uncaught, and Node prints it and exits with status 1.
  A stream emits nothing after its \<open>end\<close>, and a process that has exited hears nothing,
  so the events after the first \<open>end\<close> or \<open>error\<close> are not read. A stream that stops
  without either leaves the promise unsettled.
\<close>

fun readStream ::
  "('m, 'r, 's) env \<Rightarrow> string \<Rightarrow> event list \<Rightarrow> world \<Rightarrow> world \<times> ('m, 'r) rawDoc list promise" where
  "readStream e data [] w = (w, Unsettled)"
| "readStream e data (StreamData chunk # events) w = readStream e (data @ chunk) events w"
| "readStream e data (StreamError err # events) w = (processExit 1 (consoleError err w), Unsettled)"
| "readStream e data (StreamEnd # events) w =
     (case JSON_parse e data of
        Some parsed \<Rightarrow> (w, Resolved parsed)
      | None \<Rightarrow> (processExit 1 (consoleError ''SyntaxError'' w), Unsettled))"

text \<open>\<open>.then(doc => acc.concat(doc))\<close> on the promise of the stream.\<close>

definition generateDocFromSource ::
  "('m, 'r, 's) env \<Rightarrow> ('m, 'r) rawDoc list \<Rightarrow> sourceFile \<Rightarrow> world \<Rightarrow> world \<times> ('m, 'r) rawDoc list promise" where
  "generateDocFromSource e acc fn w =
     (case readStream e [] (parseJSDoc e (fullPath fn)) w of
        (w', Resolved parsed) \<Rightarrow> (w', Resolved (acc @ parsed))
      | (w', Rejected err) \<Rightarrow> (w', Rejected err)
      | (w', Unsettled) \<Rightarrow> (w', Unsettled))"

text \<open>
  \<open>listFiles().reduce((promise, file) => promise.then(acc => generateDocFromSource(acc, file)),
  Promise.resolve([]))\<close>: the files one after the other, each after the promise of the
  one before is fulfilled.
\<close>

fun extractDocs ::
  "('m, 'r, 's) env \<Rightarrow> sourceFile list \<Rightarrow> ('m, 'r) rawDoc list \<Rightarrow> world \<Rightarrow> world \<times> ('m, 'r) rawDoc list promise" where
  "extractDocs e [] acc w = (w, Resolved acc)"
| "extractDocs e (fn # files) acc w =
     (case generateDocFromSource e acc fn w of
        (w', Resolved acc') \<Rightarrow> extractDocs e files acc' w'
      | (w', Rejected err) \<Rightarrow> (w', Rejected err)
      | (w', Unsettled) \<Rightarrow> (w', Unsettled))"

definition generateDocsFromSource ::
  "('m, 'r, 's) env \<Rightarrow> world \<Rightarrow> world \<times> ('m, 'r, 's) doc list promise" where
  "generateDocsFromSource e w =
     (case extractDocs e (listFiles e) [] w of
        (w', Resolved jsDocs) \<Rightarrow>
          (case assembleDocs (snakeCase e) jsDocs of
             Inl err \<Rightarrow> (w', Rejected err)
           | Inr docs \<Rightarrow> (w', Resolved docs))
      | (w', Rejected err) \<Rightarrow> (w', Rejected err)
      | (w', Unsettled) \<Rightarrow> (w', Unsettled))"

definition reportErrors :: "('m, 'r, 's) env \<Rightarrow> error \<Rightarrow> world \<Rightarrow> world" where
  "reportErrors e err w = processExit 1 (consoleError (stack e err) w)"

definition writeDocsFile ::
  "('m, 'r, 's) env \<Rightarrow> ('m, 'r, 's) doc list object \<Rightarrow> world \<Rightarrow> world \<times> unit promise" where
  "writeDocsFile e docsFileObj w =
     (let jsonPath = path_join e [cwd e, ''dist'', ''date_fns_docs.json''];
          text' = JSON_stringify e docsFileObj
      in if writeFile e jsonPath text'
         then (w\<lparr>written := written w @ [(jsonPath, text')]\<rparr>, Resolved ())
         else (w, Rejected (WriteError jsonPath)))"

text \<open>
  The chain at the top of the script:
  \<open>generateDocsFromSource().then(generatedDocsObj).then(injectStaticDocsToDocsObj)
  .then(writeDocsFile).catch(reportErrors)\<close>, run from a process that has written
  nothing yet.
\<close>

definition generate_docs :: "('m, 'r, 's) env \<Rightarrow> world" where
  "generate_docs e =
     (case generateDocsFromSource e \<lparr>stderr = [], exitCode = None, written = []\<rparr> of
        (w, Unsettled) \<Rightarrow> w
      | (w, Rejected err) \<Rightarrow> reportErrors e err w
      | (w, Resolved docs) \<Rightarrow>
          (case injectStaticDocsToDocsObj (docsConfig e) (readFile e)
                  (generatedDocsObj (docsConfig e) docs) of
             Inl err \<Rightarrow> reportErrors e err w
           | Inr docsFileObj \<Rightarrow>
               (case writeDocsFile e docsFileObj w of
                  (w', Rejected err) \<Rightarrow> reportErrors e err w'
                | (w', Resolved u) \<Rightarrow> w'
                | (w', Unsettled) \<Rightarrow> w')))"

subsection \<open>Notions used to state the properties\<close>

text \<open>A parameter that the callback of \<open>paramsToTree\<close> moves under a parent.\<close>

definition nested :: "'m param \<Rightarrow> bool" where
  "nested p = (hasDot (name p) \<and> \<not> isProperty p)"

text \<open>The index that the prefix of the parameter at \<open>j\<close> has in \<open>paramIndices\<close>.\<close>

definition parentOf :: "'m param list \<Rightarrow> nat \<Rightarrow> nat option" where
  "parentOf params j = paramIndices params (beforeDot (name (params ! j)))"

text \<open>
  The parameters among the first \<open>k\<close> that are moved under the parameter at \<open>i\<close>, as
  they are pushed, and the array after the callback has run at the first \<open>k\<close> indices.
\<close>

definition children :: "'m param list \<Rightarrow> nat \<Rightarrow> nat \<Rightarrow> 'm param list" where
  "children params k i =
     map (\<lambda>j. asProperty (params ! j))
       (filter (\<lambda>j. nested (params ! j) \<and> parentOf params j = Some i) [0..<k])"

definition stateAt :: "'m param list \<Rightarrow> nat \<Rightarrow> 'm param list" where
  "stateAt params k =
     map (\<lambda>i. fold addProp (children params k i)
                (if i < k \<and> nested (params ! i) then asProperty (params ! i) else params ! i))
       [0..<length params]"


text \<open>
  The specification's syntax string: the name, then in parentheses the names of the
  parameters, an optional one in square brackets, separated by a comma and a space.
\<close>

fun commaSeparated :: "string list \<Rightarrow> string" where
  "commaSeparated [] = []"
| "commaSeparated [x] = x"
| "commaSeparated (x # y # ys) = x @ '', '' @ commaSeparated (y # ys)"

definition shownName :: "'m param \<Rightarrow> string" where
  "shownName p = (if optional p then ''['' @ name p @ '']'' else name p)"

definition syntaxOf :: "string \<Rightarrow> 'm param list \<Rightarrow> string" where
  "syntaxOf nm ps = nm @ ''('' @ commaSeparated (map shownName ps) @ '')''"

text \<open>
  The record of the specification's end-to-end scenario, its entry, and the
  \<open>snakeCase\<close> of its name.
\<close>

definition addDays :: "(unit, unit) rawDoc" where
  "addDays =
     \<lparr> doc_name = ''addDays'', doc_category = ''Day Helpers'', doc_summary = ''Add days.'',
       doc_params = Some [Param ''date'' False False None (), Param ''amount'' False False None ()],
       doc_meta = () \<rparr>"

definition addDaysEntry :: "(unit, unit, unit) doc" where
  "addDaysEntry =
     JsDoc \<lparr> entryType = ''jsdoc'', urlId = ''addDays'', category = ''Day Helpers'',
             title = ''addDays'', description = ''Add days.'', content = addDays,
             args = Some [Param ''date'' False False None (), Param ''amount'' False False None ()],
             usage = generateUsage (\<lambda>nm. ''add_days'') ''addDays'',
             usageTabs = [''commonjs'', ''umd'', ''es2015''],
             syntaxString = ''addDays(date, amount)'' \<rparr>"

text \<open>Whether an object of a category's list comes from a source file.\<close>

definition isJsDoc :: "('m, 'r, 's) doc \<Rightarrow> bool" where
  "isJsDoc d = (case d of JsDoc entry \<Rightarrow> True | StaticDoc staticDoc \<Rightarrow> False)"

text \<open>
  A record without parameters, and a small run of the script over two source files for
  given streams and a given \<open>JSON.parse\<close>.
\<close>

definition startOfToday :: "(unit, unit) rawDoc" where
  "startOfToday =
     \<lparr> doc_name = ''startOfToday'', doc_category = ''Day Helpers'',
       doc_summary = ''Return the start of today.'', doc_params = None, doc_meta = () \<rparr>"

definition exampleEnv ::
  "(string \<Rightarrow> event list) \<Rightarrow> (string \<Rightarrow> (unit, unit) rawDoc list option) \<Rightarrow> (unit, unit, unit) env" where
  "exampleEnv streams parse =
     \<lparr> listFiles = [\<lparr>fullPath = ''src/add_days/index.js''\<rparr>,
                    \<lparr>fullPath = ''src/start_of_today/index.js''\<rparr>],
       parseJSDoc = streams,
       JSON_parse = parse,
       snakeCase = (\<lambda>nm. nm),
       docsConfig = \<lparr>groups = [''Day Helpers''], staticDocs = []\<rparr>,
       readFile = (\<lambda>p. None),
       cwd = ''/repo'',
       path_join = join ''/'',
       JSON_stringify = (\<lambda>obj. ''{}''),
       writeFile = (\<lambda>p t. True),
       stack = (\<lambda>err. ''TypeError'') \<rparr>"

section \<open>Properties\<close>

subsection \<open>The parameter tree\<close>

text \<open>
  Claim C3. A null or absent parameter list gives a null tree, not an empty list; an
  empty parameter list gives the empty list, so the two signals stay apart.
\<close>

theorem paramsToTree_null:
  "paramsToTree None = Inr None
   \<and> paramsToTree (Some []) = Inr (Some [])
   \<and> paramsToTree None \<noteq> (paramsToTree (Some []) :: error + 'm param list option)"
  by (simp add: paramsToTree_def)

text \<open>
  The prefix before the first dot has no dot, so the parameter that a prefix names is
  never one that is moved itself (\<open>parentOf_Some\<close> below). Hence an object pushed onto
  a \<open>props\<close> list is not written to afterwards, and the copy that the model stores
  there equals the object that the script shares (\<open>pushed_copy_is_final\<close>).
\<close>

lemma beforeDot_noDot: "\<not> hasDot (beforeDot nm)"
  unfolding hasDot_def beforeDot_def
  by (metis (mono_tags, lifting) set_takeWhileD)

lemma paramIndicesFrom_snoc:
  "paramIndicesFrom k (ps @ [p]) m = (paramIndicesFrom k ps m)(name p \<mapsto> k + length ps)"
  by (induction ps arbitrary: k m) auto

lemma paramIndicesFrom_Some:
  "paramIndicesFrom k ps m s = Some i \<Longrightarrow> s \<in> name ` set ps \<Longrightarrow>
     k \<le> i \<and> i < k + length ps \<and> name (ps ! (i - k)) = s"
proof (induction ps arbitrary: m i rule: rev_induct)
  case Nil
  then show ?case by simp
next
  case (snoc p ps)
  show ?case
  proof (cases "name p = s")
    case True
    with snoc.prems show ?thesis by (auto simp: paramIndicesFrom_snoc)
  next
    case False
    with snoc.prems have "paramIndicesFrom k ps m s = Some i" "s \<in> name ` set ps"
      by (auto simp: paramIndicesFrom_snoc)
    from snoc.IH[OF this] show ?thesis by (auto simp: nth_append)
  qed
qed

lemma paramIndicesFrom_notin:
  "s \<notin> name ` set ps \<Longrightarrow> paramIndicesFrom k ps m s = m s"
  by (induction ps arbitrary: k m) auto

lemma paramIndicesFrom_in:
  "s \<in> name ` set ps \<Longrightarrow> paramIndicesFrom k ps m s \<noteq> None"
  by (induction ps arbitrary: m rule: rev_induct) (auto simp: paramIndicesFrom_snoc)

lemma paramIndices_None: "paramIndices ps s = None \<longleftrightarrow> s \<notin> name ` set ps"
  unfolding paramIndices_def
  using paramIndicesFrom_in[of s ps 0 Map.empty] paramIndicesFrom_notin[of s ps 0 Map.empty]
  by auto

lemma paramIndices_Some:
  "paramIndices ps s = Some i \<Longrightarrow> i < length ps \<and> name (ps ! i) = s"
proof -
  assume a: "paramIndices ps s = Some i"
  then have "s \<in> name ` set ps" using paramIndices_None[of ps s] by auto
  with a show ?thesis
    using paramIndicesFrom_Some[of 0 ps Map.empty s i] by (simp add: paramIndices_def)
qed

text \<open>
  The loop invariant of \<open>params.map\<close>: after the callback has run at the first \<open>k\<close>
  indices the array is \<open>stateAt params k\<close>, unless a prefix named no parameter.
\<close>

lemma name_fold_addProp [simp]: "name (fold addProp cs p) = name p"
  by (induction cs arbitrary: p) (auto simp: addProp_def)

lemma isProperty_fold_addProp [simp]: "isProperty (fold addProp cs p) = isProperty p"
  by (induction cs arbitrary: p) (auto simp: addProp_def)

lemma nested_fold_addProp [simp]: "nested (fold addProp cs p) = nested p"
  by (simp add: nested_def)

lemma parentOf_Some:
  "parentOf ps j = Some i \<Longrightarrow> i < length ps \<and> \<not> hasDot (name (ps ! i)) \<and> \<not> nested (ps ! i)"
  unfolding parentOf_def nested_def
  using paramIndices_Some beforeDot_noDot by metis

lemma children_Suc:
  "children ps (Suc k) i =
     children ps k i @ (if nested (ps ! k) \<and> parentOf ps k = Some i then [asProperty (ps ! k)] else [])"
  by (simp add: children_def)

lemma children_nested: "nested (ps ! i) \<Longrightarrow> children ps k i = []"
  unfolding children_def using parentOf_Some[of ps _ i] by (auto simp: filter_empty_conv)

lemma length_stateAt [simp]: "length (stateAt ps k) = length ps"
  by (simp add: stateAt_def)

lemma nth_stateAt:
  "i < length ps \<Longrightarrow> stateAt ps k ! i =
     fold addProp (children ps k i)
       (if i < k \<and> nested (ps ! i) then asProperty (ps ! i) else ps ! i)"
  by (simp add: stateAt_def)

lemma stateAt_0: "stateAt ps 0 = ps"
  by (rule nth_equalityI) (simp_all add: nth_stateAt children_def)

lemma visit_stateAt_skip:
  assumes "k < length ps" "\<not> nested (ps ! k)"
  shows "visit (paramIndices ps) k (stateAt ps k) = Inr (stateAt ps (Suc k))"
proof -
  have "stateAt ps (Suc k) = stateAt ps k"
    using assms by (intro nth_equalityI) (auto simp: nth_stateAt children_Suc less_Suc_eq)
  moreover have "\<not> (hasDot (name (stateAt ps k ! k)) \<and> \<not> isProperty (stateAt ps k ! k))"
    using assms by (simp add: nth_stateAt nested_def)
  ultimately show ?thesis by (auto simp: visit_def Let_def)
qed

lemma visit_stateAt_orphan:
  assumes "k < length ps" "nested (ps ! k)" "parentOf ps k = None"
  shows "visit (paramIndices ps) k (stateAt ps k) = Inl (TypeError ''props of undefined'')"
proof -
  have "stateAt ps k ! k = ps ! k"
    using assms by (simp add: nth_stateAt children_nested)
  then show ?thesis
    using assms by (simp add: visit_def Let_def nested_def parentOf_def)
qed

lemma visit_stateAt_nest:
  assumes "k < length ps" "nested (ps ! k)" "parentOf ps k = Some pi"
  shows "visit (paramIndices ps) k (stateAt ps k) = Inr (stateAt ps (Suc k))"
proof -
  from parentOf_Some[OF assms(3)] have pi: "pi < length ps" "\<not> nested (ps ! pi)" by auto
  with assms have ne: "pi \<noteq> k" by auto
  have here: "stateAt ps k ! k = ps ! k"
    using assms by (simp add: nth_stateAt children_nested)
  let ?child = "asProperty (ps ! k)"
  have "(stateAt ps k)[k := ?child, pi := addProp ?child ((stateAt ps k)[k := ?child] ! pi)]
        = stateAt ps (Suc k)"
  proof (rule nth_equalityI)
    show "length ((stateAt ps k)[k := ?child, pi := addProp ?child ((stateAt ps k)[k := ?child] ! pi)])
          = length (stateAt ps (Suc k))" by simp
  next
    fix i assume "i < length ((stateAt ps k)[k := ?child, pi := addProp ?child ((stateAt ps k)[k := ?child] ! pi)])"
    then have i: "i < length ps" by simp
    consider "i = k" | "i = pi" | "i \<noteq> k" "i \<noteq> pi" by blast
    then show "(stateAt ps k)[k := ?child, pi := addProp ?child ((stateAt ps k)[k := ?child] ! pi)] ! i
          = stateAt ps (Suc k) ! i"
    proof cases
      case 1
      then show ?thesis using assms ne i by (simp add: nth_stateAt children_nested)
    next
      case 2
      then show ?thesis using assms ne pi i
        by (simp add: nth_stateAt children_Suc)
    next
      case 3
      then show ?thesis using assms i
        by (auto simp: nth_stateAt children_Suc)
    qed
  qed
  then show ?thesis
    using assms pi here by (simp add: visit_def Let_def nested_def parentOf_def)
qed

lemma visitAll_append:
  "visitAll idx (xs @ ys) ps =
     (case visitAll idx xs ps of Inl e \<Rightarrow> Inl e | Inr ps' \<Rightarrow> visitAll idx ys ps')"
  by (induction xs arbitrary: ps) (auto split: sum.splits)

lemma visitAll_upto:
  "k \<le> length ps \<Longrightarrow>
   visitAll (paramIndices ps) [0..<k] ps =
     (if \<forall>j<k. nested (ps ! j) \<longrightarrow> parentOf ps j \<noteq> None
      then Inr (stateAt ps k) else Inl (TypeError ''props of undefined''))"
proof (induction k)
  case 0
  then show ?case by (simp add: stateAt_0)
next
  case (Suc k)
  then have k: "k < length ps" by simp
  show ?case
  proof (cases "\<forall>j<k. nested (ps ! j) \<longrightarrow> parentOf ps j \<noteq> None")
    case False
    then have neg: "\<not> (\<forall>j<Suc k. nested (ps ! j) \<longrightarrow> parentOf ps j \<noteq> None)"
      using less_Suc_eq by blast
    have "visitAll (paramIndices ps) [0..<k] ps = Inl (TypeError ''props of undefined'')"
      using Suc k unfolding if_not_P[OF False] by simp
    then have "visitAll (paramIndices ps) [0..<Suc k] ps = Inl (TypeError ''props of undefined'')"
      by (simp add: visitAll_append)
    then show ?thesis unfolding if_not_P[OF neg] .
  next
    case True
    then have pre: "visitAll (paramIndices ps) [0..<k] ps = Inr (stateAt ps k)"
      using Suc by simp
    consider "\<not> nested (ps ! k)" | "nested (ps ! k)" "parentOf ps k = None"
      | pi where "nested (ps ! k)" "parentOf ps k = Some pi" by (cases "parentOf ps k") auto
    then show ?thesis
    proof cases
      case 1
      with True have "\<forall>j<Suc k. nested (ps ! j) \<longrightarrow> parentOf ps j \<noteq> None"
        by (simp add: less_Suc_eq)
      then show ?thesis using pre visit_stateAt_skip[OF k 1]
        by (simp add: visitAll_append)
    next
      case 2
      then have "\<not> (\<forall>j<Suc k. nested (ps ! j) \<longrightarrow> parentOf ps j \<noteq> None)" by blast
      then show ?thesis using pre visit_stateAt_orphan[OF k 2]
        by (simp add: visitAll_append)
    next
      case 3
      with True have "\<forall>j<Suc k. nested (ps ! j) \<longrightarrow> parentOf ps j \<noteq> None"
        by (simp add: less_Suc_eq)
      then show ?thesis using pre visit_stateAt_nest[OF k 3]
        by (simp add: visitAll_append)
    qed
  qed
qed

lemma pushed_copy_is_final:
  assumes "visitAll (paramIndices ps) [0..<length ps] ps = Inr final"
      and "k < length ps" "nested (ps ! k)"
  shows "final ! k = asProperty (ps ! k)"
proof -
  have "final = stateAt ps (length ps)"
    using assms(1) visitAll_upto[of "length ps" ps] by (simp split: if_splits)
  then show ?thesis
    using assms(2,3) by (simp add: nth_stateAt children_nested)
qed

lemma paramsToTree_Some:
  "paramsToTree (Some ps) =
     (if \<forall>j<length ps. nested (ps ! j) \<longrightarrow> parentOf ps j \<noteq> None
      then Inr (Some (filter (\<lambda>p. \<not> isProperty p) (stateAt ps (length ps))))
      else Inl (TypeError ''props of undefined''))"
  by (simp add: paramsToTree_def visitAll_upto)

lemma filter_by_index:
  "filter P xs = map (\<lambda>i. xs ! i) (filter (\<lambda>i. P (xs ! i)) [0..<length xs])"
proof -
  have "filter P xs = filter P (map (\<lambda>i. xs ! i) [0..<length xs])"
    by (simp only: map_nth)
  then show ?thesis by (simp only: filter_map comp_def)
qed

lemma topLevel_stateAt:
  "filter (\<lambda>p. \<not> isProperty p) (stateAt ps (length ps)) =
     map (\<lambda>i. fold addProp (children ps (length ps) i) (ps ! i))
       (filter (\<lambda>i. \<not> isProperty (ps ! i) \<and> \<not> hasDot (name (ps ! i))) [0..<length ps])"
proof -
  let ?st = "stateAt ps (length ps)"
  have "filter (\<lambda>p. \<not> isProperty p) ?st =
        map (\<lambda>i. ?st ! i) (filter (\<lambda>i. \<not> isProperty (?st ! i)) [0..<length ps])"
    using filter_by_index[of "\<lambda>p. \<not> isProperty p" ?st] by simp
  also have "filter (\<lambda>i. \<not> isProperty (?st ! i)) [0..<length ps] =
        filter (\<lambda>i. \<not> isProperty (ps ! i) \<and> \<not> hasDot (name (ps ! i))) [0..<length ps]"
    by (rule filter_cong) (auto simp: nth_stateAt nested_def asProperty_def)
  also have "map (\<lambda>i. ?st ! i) \<dots> =
        map (\<lambda>i. fold addProp (children ps (length ps) i) (ps ! i)) \<dots>"
    by (rule map_cong) (auto simp: nth_stateAt nested_def)
  finally show ?thesis .
qed

lemma stateAt_plain:
  assumes "\<forall>q\<in>set ps. \<not> nested q" "k \<le> length ps"
  shows "stateAt ps k = ps"
proof (rule nth_equalityI)
  show "length (stateAt ps k) = length ps" by simp
next
  fix i assume "i < length (stateAt ps k)"
  then have i: "i < length ps" by simp
  have "children ps k i = []"
    using assms by (simp add: children_def filter_empty_conv)
  then show "stateAt ps k ! i = ps ! i"
    using i assms by (simp add: nth_stateAt)
qed






text \<open>
  Claim C8. When \<open>paramsToTree\<close> returns a tree, running it on that tree returns the
  same tree: the top-level list it returned has no dotted name and no parameter marked
  as a property, so nothing is nested or filtered the second time.
\<close>

theorem paramsToTree_idempotent:
  assumes "paramsToTree dirtyParams = Inr tree"
  shows "paramsToTree tree = Inr tree
         \<and> (\<forall>q \<in> set (case tree of None \<Rightarrow> [] | Some roots \<Rightarrow> roots).
              \<not> hasDot (name q) \<and> \<not> isProperty q)"
proof (cases dirtyParams)
  case None
  with assms show ?thesis by (auto simp: paramsToTree_def)
next
  case (Some ps)
  define roots where "roots = filter (\<lambda>p. \<not> isProperty p) (stateAt ps (length ps))"
  from assms Some have "paramsToTree (Some ps) = Inr tree" by simp
  then have tree: "tree = Some roots"
    using paramsToTree_Some[of ps] by (auto simp: roots_def split: if_splits)
  have plain: "\<forall>q\<in>set roots. \<not> hasDot (name q) \<and> \<not> isProperty q"
    unfolding roots_def topLevel_stateAt by auto
  then have no: "\<forall>q\<in>set roots. \<not> nested q"
    by (simp add: nested_def)
  have "stateAt roots (length roots) = roots"
    using stateAt_plain[OF no] by simp
  moreover have "\<forall>j<length roots. nested (roots ! j) \<longrightarrow> parentOf roots j \<noteq> None"
    using no nth_mem by blast
  moreover have "filter (\<lambda>p. \<not> isProperty p) roots = roots"
    using plain by (simp add: filter_id_conv)
  ultimately have "paramsToTree (Some roots) = Inr (Some roots)"
    unfolding paramsToTree_Some[of roots] by simp
  with plain tree show ?thesis by simp
qed

theorem paramsToTree_idempotent_witness:
  "paramsToTree (Some [Param ''options'' True False (Some [Param ''year'' False True None ()]) ()])
   = Inr (Some [Param ''options'' True False (Some [Param ''year'' False True None ()]) ()])"
proof -
  have run: "paramsToTree (Some [Param ''options'' True False None (),
                                 Param ''options.year'' False False None ()])
             = Inr (Some [Param ''options'' True False (Some [Param ''year'' False True None ()]) ()])"
    by code_simp
  from paramsToTree_idempotent [OF run] show ?thesis by simp
qed

text \<open>
  A dotted parameter that arrives with \<open>isProperty\<close> set is skipped by the callback
  and removed by the filter, whether or not its prefix names a parameter: nothing is
  thrown for \<open>[{name: 'a.b', isProperty: true}]\<close>.
\<close>

theorem paramsToTree_marked_orphan_returns:
  "paramsToTree (Some [Param ''a.b'' False True None ()]) = Inr (Some [])
   \<and> hasDot ''a.b'' \<and> beforeDot ''a.b'' = ''a''"
  by code_simp

text \<open>
  Claim C10, as the code has it. A parameter list that holds a dotted name whose prefix
  names no parameter of the list makes \<open>paramsToTree\<close> throw instead of returning a
  tree, provided that parameter is not already marked as a property.
\<close>

theorem paramsToTree_orphan:
  assumes "q \<in> set params" "hasDot (name q)" "\<not> isProperty q"
      and "beforeDot (name q) \<notin> name ` set params"
  shows "paramsToTree (Some params) = Inl (TypeError ''props of undefined'')"
proof -
  from assms(1) obtain j where j: "j < length params" "params ! j = q"
    by (auto simp: in_set_conv_nth)
  have "nested (params ! j)" "parentOf params j = None"
    using assms j by (simp_all add: nested_def parentOf_def paramIndices_None)
  with j have "\<not> (\<forall>j<length params. nested (params ! j) \<longrightarrow> parentOf params j \<noteq> None)"
    by blast
  then show ?thesis unfolding paramsToTree_Some by (rule if_not_P)
qed

theorem paramsToTree_orphan_witness:
  "paramsToTree (Some [Param ''a.b'' False False None ()]) = Inl (TypeError ''props of undefined'')"
  using paramsToTree_orphan [of "Param ''a.b'' False False None ()" "[Param ''a.b'' False False None ()]"]
  by (simp add: hasDot_def beforeDot_def)

subsection \<open>The syntax string\<close>

lemma commaSeparated_prefix: "commaSeparated ((a @ b) # ys) = a @ commaSeparated (b # ys)"
  by (cases ys) auto

lemma fold_commaSeparated:
  "fold (\<lambda>y r. r @ '', '' @ y) rest x = commaSeparated (x # rest)"
proof (induction rest arbitrary: x)
  case Nil
  then show ?case by simp
next
  case (Cons y rest)
  have "fold (\<lambda>y r. r @ '', '' @ y) (y # rest) x = commaSeparated ((x @ '', '' @ y) # rest)"
    using Cons.IH[of "x @ '', '' @ y"] by simp
  also have "\<dots> = x @ commaSeparated (('', '' @ y) # rest)"
    by (rule commaSeparated_prefix)
  also have "\<dots> = x @ '', '' @ commaSeparated (y # rest)"
    by (simp only: commaSeparated_prefix)
  finally show ?case by simp
qed

lemma join_commaSeparated: "join '', '' xs = commaSeparated xs"
  by (cases xs) (simp_all only: join_def fold_commaSeparated list.case commaSeparated.simps)

text \<open>
  Claim C7. For a name and a parameter tree that is not null, the syntax string is the
  name followed by the parenthesised list of the top-level parameters' names, separated
  by a comma and a space, an optional one in square brackets; the \<open>props\<close> of the
  parameters do not show in it.
\<close>

theorem generateSyntaxString_top_level:
  "generateSyntaxString nm (Some ps) = Inr (syntaxOf nm ps)
   \<and> generateSyntaxString nm
         (Some (map (\<lambda>p. Param (name p) (optional p) (isProperty p) None (meta p)) ps))
       = generateSyntaxString nm (Some ps)"
proof -
  have "(\<lambda>arg::'a param. if optional arg then ''['' @ name arg @ '']'' else name arg) = shownName"
    by (simp add: shownName_def fun_eq_iff)
  then have one: "generateSyntaxString nm (Some ps) = Inr (syntaxOf nm ps)" for ps :: "'a param list"
    unfolding generateSyntaxString_def syntaxOf_def Let_def
    by (simp only: join_commaSeparated option.case)
  have "map shownName (map (\<lambda>p. Param (name p) (optional p) (isProperty p) None (meta p)) ps)
        = map shownName ps"
    unfolding map_map by (rule map_cong) (simp_all add: shownName_def)
  then have "syntaxOf nm (map (\<lambda>p. Param (name p) (optional p) (isProperty p) None (meta p)) ps)
        = syntaxOf nm ps"
    by (simp only: syntaxOf_def)
  with one one[of "map (\<lambda>p. Param (name p) (optional p) (isProperty p) None (meta p)) ps"]
  have two: "generateSyntaxString nm
         (Some (map (\<lambda>p. Param (name p) (optional p) (isProperty p) None (meta p)) ps))
       = generateSyntaxString nm (Some ps)"
    by (simp only:)
  from one two show ?thesis by simp
qed

theorem generateSyntaxString_top_level_witness:
  "generateSyntaxString ''addDays''
     (Some [Param ''date'' False False None (), Param ''amount'' False False None ()])
   = Inr ''addDays(date, amount)''
   \<and> generateSyntaxString ''format''
     (Some [Param ''date'' False False None (),
            Param ''options'' True False (Some [Param ''locale'' True True None ()]) ()])
   = Inr ''format(date, [options])''"
  using generateSyntaxString_top_level [of "''addDays''"
      "[Param ''date'' False False None (), Param ''amount'' False False None ()]"]
    generateSyntaxString_top_level [of "''format''"
      "[Param ''date'' False False None (),
        Param ''options'' True False (Some [Param ''locale'' True True None ()]) ()]"]
  by (simp add: syntaxOf_def shownName_def)

subsection \<open>Assembling an entry\<close>

text \<open>
  The end-to-end scenario of the specification: the record \<open>addDays\<close> is assembled
  into the entry \<open>addDaysEntry\<close>, with the syntax string \<open>addDays(date, amount)\<close>.
\<close>

lemma assembleDoc_addDays: "assembleDoc (\<lambda>nm. ''add_days'') addDays = Inr addDaysEntry"
  unfolding addDays_def addDaysEntry_def by code_simp

lemma assembleDocs_fails:
  "d \<in> set jsDocs \<Longrightarrow> (assembleDoc snake d :: error + ('m, 'r, 's) doc) = Inl err \<Longrightarrow>
     \<exists>e. (assembleDocs snake jsDocs :: error + ('m, 'r, 's) doc list) = Inl e"
  by (induction jsDocs) (auto split: sum.splits)

text \<open>
  Claim C4. A record whose \<open>params\<close> is null or absent cannot be assembled: its
  parameter tree is null, \<open>generateSyntaxString\<close> calls \<open>map\<close> on it and throws. So a
  list of records that holds one makes \<open>jsDocs.map\<close> throw, and when the extraction
  hands over such a list the script reports the error, exits with status 1 and writes
  no file.
\<close>

theorem parameterless_record_throws:
  assumes "doc_params d = None"
  shows "(assembleDoc snake d :: error + ('m, 'r, 's) doc) = Inl (TypeError ''map of null'')
         \<and> (d \<in> set jsDocs \<longrightarrow> (\<exists>err. (assembleDocs snake jsDocs :: error + ('m, 'r, 's) doc list) = Inl err))
         \<and> (d \<in> set jsDocs
              \<and> extractDocs (e :: ('m, 'r, 's) env) (listFiles e) []
                   \<lparr>stderr = [], exitCode = None, written = []\<rparr>
                 = (\<lparr>stderr = [], exitCode = None, written = []\<rparr>, Resolved jsDocs)
            \<longrightarrow> (\<exists>err. generate_docs e = \<lparr>stderr = [stack e err], exitCode = Some 1, written = []\<rparr>))"
proof -
  have one: "(assembleDoc snake d :: error + ('m, 'r, 's) doc) = Inl (TypeError ''map of null'')"
    for snake
    using assms by (simp add: assembleDoc_def paramsToTree_def generateSyntaxString_def)
  then have two: "\<exists>err. (assembleDocs snake jsDocs :: error + ('m, 'r, 's) doc list) = Inl err"
    if "d \<in> set jsDocs" for snake
    using that assembleDocs_fails by blast
  have three: "\<exists>err. generate_docs e = \<lparr>stderr = [stack e err], exitCode = Some 1, written = []\<rparr>"
    if "d \<in> set jsDocs"
      "extractDocs e (listFiles e) [] \<lparr>stderr = [], exitCode = None, written = []\<rparr>
         = (\<lparr>stderr = [], exitCode = None, written = []\<rparr>, Resolved jsDocs)"
  proof -
    from two[OF that(1), of "snakeCase e"] obtain err where
      "(assembleDocs (snakeCase e) jsDocs :: error + ('m, 'r, 's) doc list) = Inl err" by blast
    then have "generate_docs e = \<lparr>stderr = [stack e err], exitCode = Some 1, written = []\<rparr>"
      using that(2)
      by (simp add: generate_docs_def generateDocsFromSource_def reportErrors_def
          processExit_def consoleError_def)
    then show ?thesis by blast
  qed
  from one two three show ?thesis by blast
qed

theorem parameterless_record_throws_witness:
  "(assembleDoc (\<lambda>nm. nm) startOfToday :: error + (unit, unit, unit) doc) = Inl (TypeError ''map of null'')
   \<and> (\<exists>err. (assembleDocs (\<lambda>nm. nm) [addDays, startOfToday] :: error + (unit, unit, unit) doc list) = Inl err)
   \<and> (\<exists>err. generate_docs
         (exampleEnv (\<lambda>src. [StreamData ''[{}]'', StreamEnd])
            (\<lambda>text'. if text' = ''[{}]'' then Some [startOfToday] else None))
        = \<lparr>stderr = [''TypeError''], exitCode = Some 1, written = []\<rparr>)"
  using parameterless_record_throws [of startOfToday "\<lambda>nm. nm" "[addDays, startOfToday]"
      "exampleEnv (\<lambda>src. [StreamData ''[{}]'', StreamEnd])
            (\<lambda>text'. if text' = ''[{}]'' then Some [startOfToday] else None)"]
    parameterless_record_throws [of startOfToday "\<lambda>nm. nm" "[startOfToday, startOfToday]"
      "exampleEnv (\<lambda>src. [StreamData ''[{}]'', StreamEnd])
            (\<lambda>text'. if text' = ''[{}]'' then Some [startOfToday] else None)"]
  by (simp add: startOfToday_def exampleEnv_def generateDocFromSource_def)

subsection \<open>Grouping\<close>

lemma keys_setProp:
  "map fst (setProp k v obj) = (if k \<in> fst ` set obj then map fst obj else map fst obj @ [k])"
  by (induction obj) auto

lemma getProp_setProp:
  "getProp (setProp k v obj) k' = (if k' = k then Some v else getProp obj k')"
  by (induction obj) auto

lemma getProp_None: "getProp obj k = None \<longleftrightarrow> k \<notin> fst ` set obj"
  by (induction obj) auto
















subsection \<open>Static documents\<close>

lemma pushStaticDocs_ok:
  "\<forall>s\<in>set sds. sd_category s \<in> fst ` set obj \<Longrightarrow>
   \<exists>result. pushStaticDocs sds obj = Inr result
     \<and> map fst result = map fst obj
     \<and> (\<forall>c. getProp result c =
           map_option (\<lambda>list. list @ map StaticDoc (filter (\<lambda>s. sd_category s = c) sds))
             (getProp obj c))"
proof (induction sds arbitrary: obj)
  case Nil
  then show ?case by (simp add: option.map_ident)
next
  case (Cons s sds)
  then obtain list where list: "getProp obj (sd_category s) = Some list"
    using getProp_None[of obj "sd_category s"] by fastforce
  let ?obj = "setProp (sd_category s) (list @ [StaticDoc s]) obj"
  have keys: "map fst ?obj = map fst obj"
    using Cons.prems by (simp add: keys_setProp)
  then have "fst ` set ?obj = fst ` set obj" by (metis list.set_map)
  with Cons.prems have "\<forall>s\<in>set sds. sd_category s \<in> fst ` set ?obj" by simp
  from Cons.IH[OF this] obtain result where r:
    "pushStaticDocs sds ?obj = Inr result" "map fst result = map fst ?obj"
    "\<forall>c. getProp result c =
           map_option (\<lambda>list. list @ map StaticDoc (filter (\<lambda>s. sd_category s = c) sds))
             (getProp ?obj c)" by blast
  have "\<forall>c. getProp result c =
      map_option (\<lambda>list. list @ map StaticDoc (filter (\<lambda>t. sd_category t = c) (s # sds)))
        (getProp obj c)"
    using r(3) list by (auto simp: getProp_setProp)
  with r(1,2) keys list show ?case by simp
qed

lemma getListOfStaticDocs_ok:
  "\<forall>s\<in>set sds. rf (sd_path s) \<noteq> None \<Longrightarrow>
   \<exists>loaded. getListOfStaticDocs rf sds = Inr loaded
     \<and> map sd_category loaded = map sd_category sds
     \<and> map sd_path loaded = map sd_path sds
     \<and> map sd_meta loaded = map sd_meta sds"
  by (induction sds) auto

text \<open>
  Claim C6. Take a grouped object whose lists hold entries from source files only, and
  any list of static documents whose files can be read and whose categories are names
  of the object. Then the injection returns an object with the same names, where the
  list of every category is the list it was followed by the static documents of that
  category, in the order of the descriptor list: whatever that order, every static
  document stands after every entry from a source file.
\<close>

theorem staticDocs_after_jsDocs:
  assumes grouped: "\<forall>c sources. getProp docsFileObj c = Some sources \<longrightarrow> (\<forall>d\<in>set sources. isJsDoc d)"
      and reads: "\<forall>s\<in>set (staticDocs config). rf (sd_path s) \<noteq> None"
      and known: "\<forall>s\<in>set (staticDocs config). sd_category s \<in> fst ` set docsFileObj"
  shows "\<exists>result loaded.
           getListOfStaticDocs rf (staticDocs config) = Inr loaded
           \<and> map sd_category loaded = map sd_category (staticDocs config)
           \<and> injectStaticDocsToDocsObj config rf docsFileObj = Inr result
           \<and> map fst result = map fst docsFileObj
           \<and> (\<forall>c list. getProp result c = Some list \<longrightarrow>
                 (\<exists>sources. getProp docsFileObj c = Some sources
                    \<and> list = sources @ map StaticDoc (filter (\<lambda>s. sd_category s = c) loaded)
                    \<and> (\<forall>i<length list. \<forall>j<length list.
                          isJsDoc (list ! i) \<and> \<not> isJsDoc (list ! j) \<longrightarrow> i < j)))"
proof -
  from getListOfStaticDocs_ok[OF reads] obtain loaded where
    loaded: "getListOfStaticDocs rf (staticDocs config) = Inr loaded"
      "map sd_category loaded = map sd_category (staticDocs config)" by blast
  have "set (map sd_category loaded) \<subseteq> fst ` set docsFileObj"
    unfolding loaded(2) using known by auto
  then have "\<forall>s\<in>set loaded. sd_category s \<in> fst ` set docsFileObj" by auto
  from pushStaticDocs_ok[OF this] obtain result where
    result: "pushStaticDocs loaded docsFileObj = Inr result"
      "map fst result = map fst docsFileObj"
      "\<forall>c. getProp result c =
           map_option (\<lambda>list. list @ map StaticDoc (filter (\<lambda>s. sd_category s = c) loaded))
             (getProp docsFileObj c)" by blast
  have inject: "injectStaticDocsToDocsObj config rf docsFileObj = Inr result"
    by (simp add: injectStaticDocsToDocsObj_def loaded(1) result(1))
  have "\<exists>sources. getProp docsFileObj c = Some sources
            \<and> list = sources @ map StaticDoc (filter (\<lambda>s. sd_category s = c) loaded)
            \<and> (\<forall>i<length list. \<forall>j<length list.
                  isJsDoc (list ! i) \<and> \<not> isJsDoc (list ! j) \<longrightarrow> i < j)"
    if got: "getProp result c = Some list" for c list
  proof -
    let ?statics = "map StaticDoc (filter (\<lambda>s. sd_category s = c) loaded)"
    from got result(3) obtain sources where
      sources: "getProp docsFileObj c = Some sources" "list = sources @ ?statics"
      by (cases "getProp docsFileObj c") auto
    from grouped sources(1) have js: "\<forall>d\<in>set sources. isJsDoc d" by blast
    have st: "\<forall>d\<in>set ?statics. \<not> isJsDoc d" by (auto simp: isJsDoc_def)
    have "i < j" if "i < length list" "j < length list" "isJsDoc (list ! i)" "\<not> isJsDoc (list ! j)"
      for i j
    proof -
      have "i < length sources"
      proof (rule ccontr)
        assume "\<not> i < length sources"
        then have "list ! i = ?statics ! (i - length sources)" "i - length sources < length ?statics"
          using that(1) sources(2) by (auto simp: nth_append)
        then have "list ! i \<in> set ?statics" by (metis nth_mem)
        with st that(3) show False by blast
      qed
      moreover have "\<not> j < length sources"
      proof
        assume "j < length sources"
        then have "list ! j \<in> set sources" using sources(2) by (simp add: nth_append)
        with js that(4) show False by blast
      qed
      ultimately show ?thesis by simp
    qed
    with sources show ?thesis by blast
  qed
  with loaded inject result(2) show ?thesis by blast
qed

theorem staticDocs_after_jsDocs_witness:
  "\<exists>result loaded.
     getListOfStaticDocs (\<lambda>p. Some ''# Intro'')
         [\<lparr>sd_category = ''Day Helpers'', sd_path = ''docs/intro.md'', sd_content = None, sd_meta = ()\<rparr>]
       = Inr loaded
     \<and> injectStaticDocsToDocsObj
         \<lparr>groups = [''Day Helpers''],
          staticDocs = [\<lparr>sd_category = ''Day Helpers'', sd_path = ''docs/intro.md'',
                         sd_content = None, sd_meta = ()\<rparr>]\<rparr>
         (\<lambda>p. Some ''# Intro'') [(''Day Helpers'', [addDaysEntry])] = Inr result
     \<and> map fst result = [''Day Helpers'']
     \<and> getProp result ''Day Helpers'' = Some (addDaysEntry # map StaticDoc loaded)"
  using staticDocs_after_jsDocs [of "[(''Day Helpers'', [addDaysEntry])]"
      "\<lparr>groups = [''Day Helpers''],
        staticDocs = [\<lparr>sd_category = ''Day Helpers'', sd_path = ''docs/intro.md'',
                       sd_content = None, sd_meta = ()\<rparr>]\<rparr>"
      "\<lambda>p. Some ''# Intro''"]
  by (auto simp: isJsDoc_def addDaysEntry_def injectStaticDocsToDocsObj_def)

subsection \<open>A stream error\<close>

lemma readStream_chunks:
  "readStream e data (map StreamData chunks @ rest) w = readStream e (data @ concat chunks) rest w"
  by (induction chunks arbitrary: data) auto

lemma generateDocFromSource_end:
  assumes "parseJSDoc e (fullPath fn) = map StreamData chunks @ StreamEnd # rest"
      and "JSON_parse e (concat chunks) = Some parsed"
  shows "generateDocFromSource e acc fn w = (w, Resolved (acc @ parsed))"
  using assms readStream_chunks[of e "[]" chunks "StreamEnd # rest" w]
  by (simp add: generateDocFromSource_def)

lemma generateDocFromSource_error:
  assumes "parseJSDoc e (fullPath fn) = map StreamData chunks @ StreamError err # rest"
  shows "generateDocFromSource e acc fn w = (processExit 1 (consoleError err w), Unsettled)"
  using assms readStream_chunks[of e "[]" chunks "StreamError err # rest" w]
  by (simp add: generateDocFromSource_def)

lemma extractDocs_error:
  assumes "\<forall>f\<in>set before. \<exists>chunks rest parsed.
             parseJSDoc e (fullPath f) = map StreamData chunks @ StreamEnd # rest
             \<and> JSON_parse e (concat chunks) = Some parsed"
      and "parseJSDoc e (fullPath fn) = map StreamData chunks @ StreamError err # rest"
  shows "extractDocs e (before @ fn # after) acc w = (processExit 1 (consoleError err w), Unsettled)"
  using assms(1)
proof (induction before arbitrary: acc)
  case Nil
  then show ?case by (simp add: generateDocFromSource_error[OF assms(2)])
next
  case (Cons f before)
  then obtain cs r parsed where
    "parseJSDoc e (fullPath f) = map StreamData cs @ StreamEnd # r"
    "JSON_parse e (concat cs) = Some parsed" by auto
  then have "generateDocFromSource e acc f w = (w, Resolved (acc @ parsed))"
    by (rule generateDocFromSource_end)
  with Cons show ?case by simp
qed

text \<open>
  Claim C9. Let the stream of a source file emit an error, after any number of chunks,
  when the streams of the files before it have ended with text that \<open>JSON.parse\<close>
  accepts. Then the script writes the error to the error stream, exits with status 1
  and writes no file.
\<close>

theorem stream_error_exits:
  assumes "listFiles e = before @ fn # after"
      and "\<forall>f\<in>set before. \<exists>chunks rest parsed.
             parseJSDoc e (fullPath f) = map StreamData chunks @ StreamEnd # rest
             \<and> JSON_parse e (concat chunks) = Some parsed"
      and "parseJSDoc e (fullPath fn) = map StreamData chunks @ StreamError err # rest"
  shows "generate_docs e = \<lparr>stderr = [err], exitCode = Some 1, written = []\<rparr>"
proof -
  have "extractDocs e (listFiles e) [] \<lparr>stderr = [], exitCode = None, written = []\<rparr>
        = (processExit 1 (consoleError err \<lparr>stderr = [], exitCode = None, written = []\<rparr>), Unsettled)"
    unfolding assms(1) using assms(2,3) by (rule extractDocs_error)
  then show ?thesis
    by (simp add: generate_docs_def generateDocsFromSource_def processExit_def consoleError_def)
qed

theorem stream_error_exits_witness:
  "generate_docs
     (exampleEnv
        (\<lambda>src. if src = ''src/add_days/index.js'' then [StreamData ''[{}]'', StreamEnd]
                else [StreamData ''[{'', StreamError ''parse failure''])
        (\<lambda>text'. Some [addDays]))
   = \<lparr>stderr = [''parse failure''], exitCode = Some 1, written = []\<rparr>"
  using stream_error_exits [of
      "exampleEnv
        (\<lambda>src. if src = ''src/add_days/index.js'' then [StreamData ''[{}]'', StreamEnd]
                else [StreamData ''[{'', StreamError ''parse failure''])
        (\<lambda>text'. Some [addDays])"
      "[\<lparr>fullPath = ''src/add_days/index.js''\<rparr>]" "\<lparr>fullPath = ''src/start_of_today/index.js''\<rparr>" "[]"
      "[''[{'']" "''parse failure''" "[]"]
  by (simp add: exampleEnv_def exI[of _ "[''[{}]'']"])

end
